theory Spec2Isabelle
  imports Main
begin

section \<open>Results of running Python code\<close>

text \<open>
  The game is Python: an out-of-range list access raises \<open>IndexError\<close>, a floor division
  by zero raises \<open>ZeroDivisionError\<close> and \<open>random.randint\<close> on an empty range raises
  \<open>ValueError\<close>. The food placement is a \<open>while True\<close> loop over random draws, so a call
  can also fail to return. The random source is modelled as a finite tape of raw draws;
  \<open>OutOfDraws\<close> says that the call has not returned within the draws of the tape.
\<close>

datatype error = IndexError | ZeroDivisionError | ValueError

datatype 'a outcome = Returns 'a | Raises error | OutOfDraws

fun obind :: "'a outcome \<Rightarrow> ('a \<Rightarrow> 'b outcome) \<Rightarrow> 'b outcome" where
  "obind (Returns x) f = f x"
| "obind (Raises e) f = Raises e"
| "obind OutOfDraws f = OutOfDraws"

section \<open>Constants\<close>

definition WIDTH :: int where "WIDTH = 800"
definition HEIGHT :: int where "HEIGHT = 600"
definition INITIAL_FRAMERATE :: int where "INITIAL_FRAMERATE = 5"
definition MAX_FRAMERATE :: int where "MAX_FRAMERATE = 20"

section \<open>The snake\<close>

record Snake =
  body :: "(int \<times> int) list"
  direction :: "int \<times> int"
  size_snake :: int

definition Snake_init :: Snake where
  "Snake_init = \<lparr>body = [(WIDTH div 2, HEIGHT div 2)], direction = (0, -1), size_snake = 20\<rparr>"

text \<open>\<open>self.body[0]\<close>: raises on the empty list.\<close>

definition head :: "Snake \<Rightarrow> (int \<times> int) outcome" where
  "head s = (case body s of [] \<Rightarrow> Raises IndexError | h # _ \<Rightarrow> Returns h)"

text \<open>
  \<open>insert(0, new_head)\<close> followed by \<open>pop()\<close>: after the insert the list is not empty,
  so the pop cannot raise; it removes the last element.
\<close>

definition move :: "Snake \<Rightarrow> Snake outcome" where
  "move s =
     obind (head s) (\<lambda>(head_x, head_y).
       let (dir_x, dir_y) = direction s;
           new_head = (head_x + dir_x * size_snake s, head_y + dir_y * size_snake s)
       in Returns (s\<lparr>body := butlast (new_head # body s)\<rparr>))"

definition change_direction :: "int \<times> int \<Rightarrow> Snake \<Rightarrow> Snake" where
  "change_direction new_direction s =
     (if (fst new_direction * -1, snd new_direction * -1) \<noteq> direction s
      then s\<lparr>direction := new_direction\<rparr> else s)"

text \<open>\<open>self.head() in self.body[1:]\<close>; the slice of a list never raises.\<close>

definition is_self_collision :: "Snake \<Rightarrow> bool outcome" where
  "is_self_collision s = obind (head s) (\<lambda>h. Returns (h \<in> set (drop 1 (body s))))"

definition is_wall_collision :: "Snake \<Rightarrow> bool outcome" where
  "is_wall_collision s =
     obind (head s) (\<lambda>(head_x, head_y).
       Returns (head_x < 0 \<or> head_x \<ge> WIDTH \<or> head_y < 0 \<or> head_y \<ge> HEIGHT))"

text \<open>\<open>self.body.append(self.body[-1])\<close>: \<open>body[-1]\<close> raises on the empty list.\<close>

definition grow :: "Snake \<Rightarrow> Snake outcome" where
  "grow s = (if body s = [] then Raises IndexError
             else Returns (s\<lparr>body := body s @ [last (body s)]\<rparr>))"

section \<open>The food\<close>

record Food =
  position :: "int \<times> int"
  size_food :: int

definition Food_init :: Food where
  "Food_init = \<lparr>position = (0, 0), size_food = 20\<rparr>"

text \<open>Python's \<open>//\<close> rounds towards minus infinity, as \<open>div\<close> on \<open>int\<close> does, and raises on 0.\<close>

definition floordiv :: "int \<Rightarrow> int \<Rightarrow> int outcome" where
  "floordiv a b = (if b = 0 then Raises ZeroDivisionError else Returns (a div b))"

text \<open>
  \<open>random.randint(a, b)\<close> returns some integer \<open>n\<close> with \<open>a \<le> n \<le> b\<close> and raises
  \<open>ValueError\<close> when the range is empty. It takes the next raw draw from the tape and
  maps it into the range, so every value of the range is a possible result
  (\<open>randint_any\<close> below) and no other value is (\<open>randint_range\<close>).
\<close>

definition randint :: "int \<Rightarrow> int \<Rightarrow> nat list \<Rightarrow> (int \<times> nat list) outcome" where
  "randint a b tape =
     (if b < a then Raises ValueError
      else case tape of
             [] \<Rightarrow> OutOfDraws
           | r # rest \<Rightarrow> Returns (a + int (r mod nat (b - a + 1)), rest))"

lemma obind_cong [fundef_cong]:
  "m = m' \<Longrightarrow> (\<And>x. m' = Returns x \<Longrightarrow> f x = f' x) \<Longrightarrow> obind m f = obind m' f'"
  by (cases m') simp_all

lemma randint_shorter: "randint a b tape = Returns (n, tape') \<Longrightarrow> length tape' < length tape"
  by (auto simp: randint_def split: if_splits list.splits)

text \<open>
  The \<open>while True\<close> loop of \<open>Food.reset_position\<close>. Each round evaluates the two
  coordinates left to right (bound, draw, product), stores the position, and leaves the
  loop when the position is not in the snake's body. Each round consumes draws, so the
  recursion ends on a finite tape, with \<open>OutOfDraws\<close> when no round has accepted.
\<close>

function reset_position :: "nat list \<Rightarrow> Snake \<Rightarrow> Food \<Rightarrow> (Food \<times> nat list) outcome" where
  "reset_position tape snake f =
     obind (floordiv (WIDTH - size_food f) (size_food f)) (\<lambda>x_max.
     obind (randint 0 x_max tape) (\<lambda>(rx, tape1).
     obind (floordiv (HEIGHT - size_food f) (size_food f)) (\<lambda>y_max.
     obind (randint 0 y_max tape1) (\<lambda>(ry, tape2).
       let f' = f\<lparr>position := (rx * size_food f, ry * size_food f)\<rparr>
       in if position f' \<notin> set (body snake) then Returns (f', tape2)
          else reset_position tape2 snake f'))))"
  by pat_completeness auto
termination
proof (relation "measure (\<lambda>(tape, snake, f). length tape)", goal_cases)
  case 1
  show ?case by simp
next
  case (2 tape snake f x_max p rx tape1 y_max q ry tape2 f')
  from 2 have "length tape1 < length tape" "length tape2 < length tape1"
    by (auto dest: randint_shorter)
  then show ?case by simp
qed

declare reset_position.simps [simp del]

section \<open>The game loop\<close>

datatype key = K_UP | K_DOWN | K_LEFT | K_RIGHT | K_r | K_other

datatype event = QUIT | KEYDOWN key | OTHER

text \<open>The local variables of \<open>main\<close> that the loop reads and writes.\<close>

record game =
  snake :: Snake
  food :: Food
  score :: int
  framerate :: int
  game_over :: bool
  running :: bool

text \<open>The statements of \<open>main\<close> before the loop.\<close>

definition main_init :: "nat list \<Rightarrow> (game \<times> nat list) outcome" where
  "main_init tape =
     obind (reset_position tape Snake_init Food_init) (\<lambda>(f, tape').
       Returns (\<lparr>snake = Snake_init, food = f, score = 0, framerate = INITIAL_FRAMERATE,
                 game_over = False, running = True\<rparr>, tape'))"

text \<open>One round of the \<open>for event in pygame.event.get()\<close> loop.\<close>

fun handle_event :: "event \<Rightarrow> nat list \<Rightarrow> game \<Rightarrow> (game \<times> nat list) outcome" where
  "handle_event QUIT tape g = Returns (g\<lparr>running := False\<rparr>, tape)"
| "handle_event (KEYDOWN K_UP) tape g =
     Returns (g\<lparr>snake := change_direction (0, -1) (snake g)\<rparr>, tape)"
| "handle_event (KEYDOWN K_DOWN) tape g =
     Returns (g\<lparr>snake := change_direction (0, 1) (snake g)\<rparr>, tape)"
| "handle_event (KEYDOWN K_LEFT) tape g =
     Returns (g\<lparr>snake := change_direction (-1, 0) (snake g)\<rparr>, tape)"
| "handle_event (KEYDOWN K_RIGHT) tape g =
     Returns (g\<lparr>snake := change_direction (1, 0) (snake g)\<rparr>, tape)"
| "handle_event (KEYDOWN K_r) tape g =
     (if game_over g then
        obind (reset_position tape Snake_init Food_init) (\<lambda>(f, tape').
          Returns (g\<lparr>snake := Snake_init, food := f, score := 0,
                     framerate := INITIAL_FRAMERATE, game_over := False\<rparr>, tape'))
      else Returns (g, tape))"
| "handle_event (KEYDOWN K_other) tape g = Returns (g, tape)"
| "handle_event OTHER tape g = Returns (g, tape)"

fun handle_events :: "event list \<Rightarrow> nat list \<Rightarrow> game \<Rightarrow> (game \<times> nat list) outcome" where
  "handle_events [] tape g = Returns (g, tape)"
| "handle_events (e # es) tape g =
     obind (handle_event e tape g) (\<lambda>(g', tape'). handle_events es tape' g')"

text \<open>
  The \<open>if not game_over:\<close> block. The \<open>or\<close> of the two collision tests is evaluated
  left to right and stops at the first true one. The test of the head against the food
  comes after the collision test, at the same level, and is not guarded by it.
\<close>

definition tick :: "nat list \<Rightarrow> game \<Rightarrow> (game \<times> nat list) outcome" where
  "tick tape g =
     (if \<not> game_over g then
        obind (move (snake g)) (\<lambda>s1.
        obind (is_self_collision s1) (\<lambda>self_hit.
        obind (if self_hit then Returns True else is_wall_collision s1) (\<lambda>hit.
          let g1 = (if hit then g\<lparr>snake := s1, game_over := True\<rparr> else g\<lparr>snake := s1\<rparr>)
          in obind (head s1) (\<lambda>h.
               if h = position (food g1) then
                 obind (grow s1) (\<lambda>s2.
                 obind (reset_position tape s2 (food g1)) (\<lambda>(f, tape').
                   Returns (g1\<lparr>snake := s2, food := f, score := score g1 + 1,
                               framerate := min (framerate g1 + 1) MAX_FRAMERATE\<rparr>, tape')))
               else Returns (g1, tape)))))
      else Returns (g, tape))"

text \<open>
  One iteration of \<open>while running\<close>: the events of the frame, then the simulation step.
  Drawing and \<open>clock.tick\<close> change none of the variables.
\<close>

definition frame :: "event list \<Rightarrow> nat list \<Rightarrow> game \<Rightarrow> (game \<times> nat list) outcome" where
  "frame evs tape g = obind (handle_events evs tape g) (\<lambda>(g1, tape1). tick tape1 g1)"

text \<open>
  The loop on the events of successive frames: the state after the last frame given, or
  at the exit of the loop when \<open>running\<close> has become false before.
\<close>

fun main_loop :: "event list list \<Rightarrow> nat list \<Rightarrow> game \<Rightarrow> (game \<times> nat list) outcome" where
  "main_loop [] tape g = Returns (g, tape)"
| "main_loop (evs # rest) tape g =
     (if running g then obind (frame evs tape g) (\<lambda>(g', tape'). main_loop rest tape' g')
      else Returns (g, tape))"

definition run :: "event list list \<Rightarrow> nat list \<Rightarrow> (game \<times> nat list) outcome" where
  "run frames tape = obind (main_init tape) (\<lambda>(g, tape'). main_loop frames tape' g)"

section \<open>Grid predicates\<close>

text \<open>A position whose coordinates are multiples of the segment size 20.\<close>

definition aligned :: "int \<times> int \<Rightarrow> bool" where
  "aligned p = (20 dvd fst p \<and> 20 dvd snd p)"

text \<open>An aligned position inside the arena: x in [0, 780], y in [0, 580].\<close>

definition food_cell :: "int \<times> int \<Rightarrow> bool" where
  "food_cell p = (aligned p \<and> 0 \<le> fst p \<and> fst p \<le> 780 \<and> 0 \<le> snd p \<and> snd p \<le> 580)"

definition grid_state :: "game \<Rightarrow> bool" where
  "grid_state g = (list_all aligned (body (snake g)) \<and> food_cell (position (food g)))"

text \<open>What holds of the variables of \<open>main\<close> between two frames.\<close>

definition game_inv :: "game \<Rightarrow> bool" where
  "game_inv g =
     (body (snake g) \<noteq> [] \<and> size_snake (snake g) = 20 \<and> size_food (food g) = 20
      \<and> position (food g) \<notin> set (body (snake g))
      \<and> grid_state g
      \<and> int (length (body (snake g))) = score g + 1)"

section \<open>Properties of the snake\<close>

lemma head_Returns: "body s \<noteq> [] \<Longrightarrow> head s = Returns (hd (body s))"
  by (cases "body s") (simp_all add: head_def)

lemma move_Returns:
  assumes "body s \<noteq> []"
  shows "move s = Returns (s\<lparr>body :=
           (fst (hd (body s)) + fst (direction s) * size_snake s,
            snd (hd (body s)) + snd (direction s) * size_snake s) # butlast (body s)\<rparr>)"
  using assms by (simp add: move_def head_Returns split: prod.splits)

text \<open>
  C1. For a snake with a non-empty body, \<open>move\<close> returns; the body keeps its length, the
  new head is the old head plus the direction times the segment size (20 pixels per axis
  for the size that \<open>Snake.__init__\<close> sets), every other segment takes the former
  position of the segment before it, and direction and size are untouched.
\<close>

theorem move_shifts_body:
  assumes "body s \<noteq> []"
  shows "\<exists>s'. move s = Returns s'
           \<and> length (body s') = length (body s)
           \<and> hd (body s') = (fst (hd (body s)) + fst (direction s) * size_snake s,
                             snd (hd (body s)) + snd (direction s) * size_snake s)
           \<and> (size_snake s = 20 \<longrightarrow>
                hd (body s') = (fst (hd (body s)) + fst (direction s) * 20,
                                snd (hd (body s)) + snd (direction s) * 20))
           \<and> (\<forall>i. Suc i < length (body s) \<longrightarrow> body s' ! Suc i = body s ! i)
           \<and> direction s' = direction s \<and> size_snake s' = size_snake s"
proof -
  have len: "length (butlast (body s)) = length (body s) - 1" by simp
  have shift: "\<forall>i. Suc i < length (body s) \<longrightarrow> butlast (body s) ! i = body s ! i"
    by (simp add: nth_butlast)
  from assms len have "Suc (length (butlast (body s))) = length (body s)"
    by (cases "body s") simp_all
  with shift show ?thesis
    by (simp add: move_Returns [OF assms])
qed

theorem move_shifts_body_witness:
  "body \<lparr>body = [(400, 300), (400, 320), (420, 320)], direction = (0, -1), size_snake = 20\<rparr> \<noteq> []
   \<and> move \<lparr>body = [(400, 300), (400, 320), (420, 320)], direction = (0, -1), size_snake = 20\<rparr>
       = Returns \<lparr>body = [(400, 280), (400, 300), (400, 320)], direction = (0, -1), size_snake = 20\<rparr>"
proof -
  let ?s = "\<lparr>body = [(400, 300), (400, 320), (420, 320)], direction = (0, -1), size_snake = (20::int)\<rparr>"
  have ne: "body ?s \<noteq> []" by simp
  from move_shifts_body [OF ne] obtain s' where "move ?s = Returns s'" by blast
  then show ?thesis by (simp add: move_def head_def)
qed



lemma grow_Returns:
  "body s \<noteq> [] \<Longrightarrow> grow s = Returns (s\<lparr>body := body s @ [last (body s)]\<rparr>)"
  by (simp add: grow_def)

text \<open>
  C6. For a snake with a non-empty body, \<open>grow\<close> returns the snake with a copy of its
  last segment appended, and the \<open>move\<close> that follows returns a snake whose body is one
  longer than the body before \<open>grow\<close>.
\<close>

theorem grow_then_move_length:
  assumes "body s \<noteq> []"
  shows "\<exists>s1 s2. grow s = Returns s1 \<and> body s1 = body s @ [last (body s)]
           \<and> direction s1 = direction s \<and> size_snake s1 = size_snake s
           \<and> move s1 = Returns s2 \<and> length (body s2) = length (body s) + 1"
proof -
  let ?s1 = "s\<lparr>body := body s @ [last (body s)]\<rparr>"
  have ne1: "body ?s1 \<noteq> []" by simp
  have "length (body s @ [last (body s)]) = length (body s) + 1" by simp
  then show ?thesis
    by (simp add: grow_Returns [OF assms] move_Returns [OF ne1])
qed

theorem grow_then_move_length_witness:
  "body \<lparr>body = [(400, 280), (400, 300)], direction = (1, 0), size_snake = 20\<rparr> \<noteq> []
   \<and> grow \<lparr>body = [(400, 280), (400, 300)], direction = (1, 0), size_snake = 20\<rparr>
       = Returns \<lparr>body = [(400, 280), (400, 300), (400, 300)], direction = (1, 0), size_snake = 20\<rparr>
   \<and> move \<lparr>body = [(400, 280), (400, 300), (400, 300)], direction = (1, 0), size_snake = 20\<rparr>
       = Returns \<lparr>body = [(420, 280), (400, 280), (400, 300)], direction = (1, 0), size_snake = 20\<rparr>"
proof -
  let ?s = "\<lparr>body = [(400, 280), (400, 300)], direction = (1, 0), size_snake = (20::int)\<rparr>"
  have ne: "body ?s \<noteq> []" by simp
  have g: "grow ?s = Returns \<lparr>body = [(400, 280), (400, 300), (400, 300)], direction = (1, 0),
                              size_snake = 20\<rparr>"
    by (simp add: grow_def)
  have m: "move \<lparr>body = [(400, 280), (400, 300), (400, 300)], direction = (1, 0), size_snake = 20\<rparr>
       = Returns \<lparr>body = [(420, 280), (400, 280), (400, 300)], direction = (1, 0), size_snake = 20\<rparr>"
    by (simp add: move_def head_def)
  from grow_then_move_length [OF ne] have "\<exists>s1 s2. grow ?s = Returns s1 \<and> move s1 = Returns s2"
    by blast
  with g m show ?thesis by simp
qed

lemma change_direction_direction:
  "direction (change_direction d s) = (if (- fst d, - snd d) = direction s then direction s else d)"
  by (simp add: change_direction_def)

lemma change_direction_body [simp]: "body (change_direction d s) = body s"
  by (simp add: change_direction_def)

lemma change_direction_size [simp]: "size_snake (change_direction d s) = size_snake s"
  by (simp add: change_direction_def)

text \<open>
  C5, as stated: \<open>change_direction d\<close> leaves the direction as it was exactly when \<open>d\<close>
  is the negation of the current direction. That fails when \<open>d\<close> is the current
  direction itself: the snake of \<open>Snake.__init__\<close> heads up, the request is up, the
  direction after the call is the one before it, and up is not the negation of up.
\<close>

theorem change_direction_unchanged_iff_counterexample:
  "\<not> (direction (change_direction (0, -1) Snake_init) = direction Snake_init
        \<longleftrightarrow> (0, -1) = (- fst (direction Snake_init), - snd (direction Snake_init)))"
  by (simp add: change_direction_def Snake_init_def)

text \<open>
  C5, amended. A request that is the exact negation of the current direction changes
  nothing; any other request becomes the current direction. So the direction after the
  call equals the direction before it exactly when the request is the negation of the
  current direction or the current direction itself. Body and size are never touched.
\<close>

theorem change_direction_guard:
  "(d = (- fst (direction s), - snd (direction s)) \<longrightarrow> change_direction d s = s)
   \<and> (d \<noteq> (- fst (direction s), - snd (direction s)) \<longrightarrow>
        change_direction d s = s\<lparr>direction := d\<rparr>)
   \<and> (direction (change_direction d s) = direction s
        \<longleftrightarrow> d = (- fst (direction s), - snd (direction s)) \<or> d = direction s)"
  by (cases d; cases "direction s") (auto simp: change_direction_def)

theorem change_direction_guard_witness:
  "change_direction (0, 1) Snake_init = Snake_init
   \<and> change_direction (-1, 0) Snake_init = Snake_init\<lparr>direction := (-1, 0)\<rparr>
   \<and> change_direction (0, -1) Snake_init = Snake_init"
proof -
  have a: "(0, 1) = (- fst (direction Snake_init), - snd (direction Snake_init))"
    by (simp add: Snake_init_def)
  have b: "(-1, 0) \<noteq> (- fst (direction Snake_init), - snd (direction Snake_init))"
    by (simp add: Snake_init_def)
  have c: "(0, -1) \<noteq> (- fst (direction Snake_init), - snd (direction Snake_init))"
    by (simp add: Snake_init_def)
  from change_direction_guard [of "(0, 1)" Snake_init] a
  have "change_direction (0, 1) Snake_init = Snake_init" by blast
  moreover from change_direction_guard [of "(-1, 0)" Snake_init] b
  have "change_direction (-1, 0) Snake_init = Snake_init\<lparr>direction := (-1, 0)\<rparr>" by blast
  moreover from change_direction_guard [of "(0, -1)" Snake_init] c
  have "change_direction (0, -1) Snake_init = Snake_init\<lparr>direction := (0, -1)\<rparr>" by blast
  then have "change_direction (0, -1) Snake_init = Snake_init" by (simp add: Snake_init_def)
  ultimately show ?thesis by simp
qed

text \<open>
  C8, as stated: two calls of \<open>change_direction d\<close> in a row leave the direction equal
  to \<open>d\<close>. That fails when \<open>d\<close> is the reversal of the current direction: the snake of
  \<open>Snake.__init__\<close> heads up, both requests for down are refused, and it still heads up.
\<close>

theorem change_direction_twice_counterexample:
  "direction (change_direction (0, 1) (change_direction (0, 1) Snake_init)) \<noteq> (0, 1)"
  by (simp add: change_direction_def Snake_init_def)

text \<open>
  C8, amended. The second of two equal requests in a row changes nothing: the snake is
  as after the first. The direction is then the requested one when the request is not
  the reversal of the direction before the two calls, and the direction before them
  when it is.
\<close>

theorem change_direction_idempotent:
  "change_direction d (change_direction d s) = change_direction d s
   \<and> (d \<noteq> (- fst (direction s), - snd (direction s)) \<longrightarrow>
        direction (change_direction d (change_direction d s)) = d)
   \<and> (d = (- fst (direction s), - snd (direction s)) \<longrightarrow>
        direction (change_direction d (change_direction d s)) = direction s)"
  by (cases d; cases "direction s") (auto simp: change_direction_def)

theorem change_direction_idempotent_witness:
  "direction (change_direction (1, 0) (change_direction (1, 0) Snake_init)) = (1, 0)
   \<and> direction (change_direction (0, 1) (change_direction (0, 1) Snake_init)) = (0, -1)"
proof -
  have a: "(1, 0) \<noteq> (- fst (direction Snake_init), - snd (direction Snake_init))"
    by (simp add: Snake_init_def)
  have b: "(0, 1) = (- fst (direction Snake_init), - snd (direction Snake_init))"
    by (simp add: Snake_init_def)
  from change_direction_idempotent [of "(1, 0)" Snake_init] a
  have "direction (change_direction (1, 0) (change_direction (1, 0) Snake_init)) = (1, 0)"
    by blast
  moreover from change_direction_idempotent [of "(0, 1)" Snake_init] b
  have "direction (change_direction (0, 1) (change_direction (0, 1) Snake_init))
          = direction Snake_init" by blast
  ultimately show ?thesis by (simp add: Snake_init_def)
qed

section \<open>Properties of the food placement\<close>

lemma randint_range: "randint a b tape = Returns (n, tape') \<Longrightarrow> a \<le> n \<and> n \<le> b"
proof -
  assume r: "randint a b tape = Returns (n, tape')"
  then have ab: "a \<le> b" by (auto simp: randint_def split: if_splits)
  from r ab obtain d where n: "n = a + int (d mod nat (b - a + 1))"
    by (auto simp: randint_def split: if_splits list.splits)
  from ab have "d mod nat (b - a + 1) < nat (b - a + 1)" by simp
  with ab n show ?thesis by linarith
qed

lemma randint_any: "a \<le> n \<Longrightarrow> n \<le> b \<Longrightarrow> randint a b (nat (n - a) # rest) = Returns (n, rest)"
  by (simp add: randint_def)

text \<open>With the size 20 of \<open>Food.__init__\<close> the bounds are 39 and 29 and nothing raises.\<close>

lemma reset_position_size20:
  assumes "size_food f = 20"
  shows "reset_position tape sn f =
     (case tape of
        r1 # r2 # rest \<Rightarrow>
          if (int (r1 mod 40) * 20, int (r2 mod 30) * 20) \<notin> set (body sn)
          then Returns (f\<lparr>position := (int (r1 mod 40) * 20, int (r2 mod 30) * 20)\<rparr>, rest)
          else reset_position rest sn
                 (f\<lparr>position := (int (r1 mod 40) * 20, int (r2 mod 30) * 20)\<rparr>)
      | _ \<Rightarrow> OutOfDraws)"
  by (subst reset_position.simps)
     (simp add: assms floordiv_def randint_def WIDTH_def HEIGHT_def Let_def split: list.splits)

lemma food_cell_draw: "food_cell (int (r1 mod 40) * 20, int (r2 mod 30) * 20)"
proof -
  have "r1 mod 40 < 40" "r2 mod 30 < 30" by simp_all
  then have "int (r1 mod 40) \<le> 39" "int (r2 mod 30) \<le> 29" by linarith+
  then show ?thesis by (simp add: food_cell_def aligned_def)
qed

lemma reset_position_post:
  "size_food f = 20 \<Longrightarrow> reset_position tape sn f = Returns (f', tape') \<Longrightarrow>
     position f' \<notin> set (body sn) \<and> size_food f' = 20 \<and> food_cell (position f')"
proof (induction tape arbitrary: f rule: induct_list012)
  case 1
  then show ?case by (simp add: reset_position_size20)
next
  case (2 r)
  then show ?case by (simp add: reset_position_size20)
next
  case (3 r1 r2 rest)
  let ?p = "(int (r1 mod 40) * 20, int (r2 mod 30) * 20)"
  show ?case
  proof (cases "?p \<in> set (body sn)")
    case True
    with "3.prems" have "reset_position rest sn (f\<lparr>position := ?p\<rparr>) = Returns (f', tape')"
      by (simp add: reset_position_size20 [of f])
    moreover from "3.prems" have "size_food (f\<lparr>position := ?p\<rparr>) = 20" by simp
    ultimately show ?thesis by (rule "3.IH"(1) [rotated])
  next
    case False
    with "3.prems" have "f' = f\<lparr>position := ?p\<rparr>"
      by (simp add: reset_position_size20 [of f])
    with False "3.prems"(1) show ?thesis by (simp add: food_cell_draw)
  qed
qed

text \<open>
  The call returns as soon as a round draws a free cell: after any rounds, accepted or
  not, a pair of draws for a cell outside the body ends the loop at the latest.
\<close>

lemma reset_position_returns:
  assumes "size_food f = 20" and "even (length pre)"
      and "(int (r1 mod 40) * 20, int (r2 mod 30) * 20) \<notin> set (body sn)"
  shows "\<exists>f' tape'. reset_position (pre @ r1 # r2 # rest) sn f = Returns (f', tape')"
  using assms(1,2)
proof (induction pre arbitrary: f rule: induct_list012)
  case 1
  with assms(3) show ?case by (simp add: reset_position_size20)
next
  case (2 r)
  then show ?case by simp
next
  case (3 q1 q2 pre)
  let ?q = "(int (q1 mod 40) * 20, int (q2 mod 30) * 20)"
  show ?case
  proof (cases "?q \<in> set (body sn)")
    case True
    from "3.prems" have "size_food (f\<lparr>position := ?q\<rparr>) = 20" "even (length pre)" by simp_all
    from "3.IH"(1) [OF this] True "3.prems"(1) show ?thesis
      by (simp add: reset_position_size20 [of f])
  next
    case False
    with "3.prems"(1) show ?thesis by (simp add: reset_position_size20 [of f])
  qed
qed

text \<open>
  C3. A call of \<open>reset_position\<close> that returns, on a food of the size 20 that
  \<open>Food.__init__\<close> sets, leaves a position that is not in the sn's body, with x a
  multiple of 20 in [0, 780] and y a multiple of 20 in [0, 580].
\<close>

theorem reset_position_free_grid_cell:
  assumes "size_food f = 20" and "reset_position tape sn f = Returns (f', tape')"
  shows "position f' \<notin> set (body sn)
         \<and> 20 dvd fst (position f') \<and> 0 \<le> fst (position f') \<and> fst (position f') \<le> 780
         \<and> 20 dvd snd (position f') \<and> 0 \<le> snd (position f') \<and> snd (position f') \<le> 580"
  using reset_position_post [OF assms] by (simp add: food_cell_def aligned_def)

theorem reset_position_free_grid_cell_witness:
  "size_food Food_init = 20
   \<and> reset_position [20, 15, 60, 45, 39, 29, 7] Snake_init Food_init
       = Returns (\<lparr>position = (780, 580), size_food = 20\<rparr>, [7])
   \<and> (780, 580) \<notin> set (body Snake_init)"
proof -
  have sz: "size_food Food_init = 20" by (simp add: Food_init_def)
  have r: "reset_position [20, 15, 60, 45, 39, 29, 7] Snake_init Food_init
             = Returns (\<lparr>position = (780, 580), size_food = 20\<rparr>, [7])"
    by (simp add: reset_position_size20 Snake_init_def Food_init_def WIDTH_def HEIGHT_def)
  from reset_position_free_grid_cell [OF sz r] sz r show ?thesis by simp
qed

section \<open>Properties of the game loop\<close>

lemma obind_eq_Returns: "obind m f = Returns y \<longleftrightarrow> (\<exists>x. m = Returns x \<and> f x = Returns y)"
  by (cases m) simp_all

lemma aligned_step: "aligned p \<Longrightarrow> aligned (fst p + dx * 20, snd p + dy * 20)"
  by (simp add: aligned_def)

lemma game_inv_restart:
  assumes "reset_position tape Snake_init Food_init = Returns (f, tape')"
  shows "game_inv (g\<lparr>snake := Snake_init, food := f, score := 0, framerate := r,
                     game_over := b\<rparr>)"
proof -
  have "size_food Food_init = 20" by (simp add: Food_init_def)
  from reset_position_post [OF this assms] show ?thesis
    by (simp add: game_inv_def grid_state_def Snake_init_def aligned_def WIDTH_def HEIGHT_def)
qed

lemma main_init_inv:
  assumes "main_init tape = Returns (g, tape')"
  shows "game_inv g"
proof -
  from assms obtain f where rp: "reset_position tape Snake_init Food_init = Returns (f, tape')"
    and g: "g = \<lparr>snake = Snake_init, food = f, score = 0, framerate = INITIAL_FRAMERATE,
                 game_over = False, running = True\<rparr>"
    by (auto simp: main_init_def obind_eq_Returns)
  have "size_food Food_init = 20" by (simp add: Food_init_def)
  from reset_position_post [OF this rp] show ?thesis
    by (simp add: g game_inv_def grid_state_def Snake_init_def aligned_def WIDTH_def HEIGHT_def)
qed

lemma restart_Returns:
  assumes "game_over g" and "handle_event (KEYDOWN K_r) tape g = Returns (g', tape')"
  shows "\<exists>f. reset_position tape Snake_init Food_init = Returns (f, tape')
           \<and> g' = g\<lparr>snake := Snake_init, food := f, score := 0,
                     framerate := INITIAL_FRAMERATE, game_over := False\<rparr>"
  using assms by (auto simp: obind_eq_Returns)

lemma handle_event_inv:
  assumes "game_inv g" and "handle_event e tape g = Returns (g', tape')"
  shows "game_inv g'"
proof (cases e)
  case QUIT
  with assms show ?thesis by (auto simp: game_inv_def grid_state_def)
next
  case (KEYDOWN k)
  show ?thesis
  proof (cases k)
    case K_r
    show ?thesis
    proof (cases "game_over g")
      case True
      from restart_Returns [OF True] assms(2) KEYDOWN K_r obtain f
        where "reset_position tape Snake_init Food_init = Returns (f, tape')"
          and "g' = g\<lparr>snake := Snake_init, food := f, score := 0,
                       framerate := INITIAL_FRAMERATE, game_over := False\<rparr>"
        by blast
      then show ?thesis by (simp add: game_inv_restart)
    next
      case False
      with assms KEYDOWN K_r show ?thesis by simp
    qed
  qed (use assms KEYDOWN in \<open>auto simp: game_inv_def grid_state_def\<close>)
next
  case OTHER
  with assms show ?thesis by simp
qed

lemma handle_events_inv:
  "game_inv g \<Longrightarrow> handle_events es tape g = Returns (g', tape') \<Longrightarrow> game_inv g'"
proof (induction es arbitrary: tape g)
  case Nil
  then show ?case by simp
next
  case (Cons e es)
  from Cons.prems(2) obtain g1 tape1
    where e: "handle_event e tape g = Returns (g1, tape1)"
      and r: "handle_events es tape1 g1 = Returns (g', tape')"
    by (auto simp: obind_eq_Returns)
  from handle_event_inv [OF Cons.prems(1) e] have "game_inv g1" .
  from Cons.IH [OF this r] show ?case .
qed

text \<open>
  The simulation step keeps the invariant: the moved head is aligned; when it is on the
  food the snake grows by one, the score with it, and the food is placed again off the
  grown body; when it is not, the food stays off the moved body.
\<close>

lemma tick_inv:
  assumes inv: "game_inv g" and t: "tick tape g = Returns (g', tape')"
  shows "game_inv g'"
proof (cases "game_over g")
  case True
  with t have "g' = g" by (simp add: tick_def)
  with inv show ?thesis by simp
next
  case False
  let ?b = "body (snake g)"
  define nh where "nh = (fst (hd ?b) + fst (direction (snake g)) * 20,
                         snd (hd ?b) + snd (direction (snake g)) * 20)"
  define s1 where "s1 = (snake g)\<lparr>body := nh # butlast ?b\<rparr>"
  from inv have ne: "?b \<noteq> []" and sz: "size_snake (snake g) = 20"
    and fsz: "size_food (food g) = 20" and free: "position (food g) \<notin> set ?b"
    and al: "list_all aligned ?b" and fc: "food_cell (position (food g))"
    and len: "int (length ?b) = score g + 1"
    by (simp_all add: game_inv_def grid_state_def)
  have mv: "move (snake g) = Returns s1"
    using move_Returns [OF ne] sz by (simp add: s1_def nh_def)
  have b1: "body s1 = nh # butlast ?b" by (simp add: s1_def)
  have hd1: "head s1 = Returns nh" by (simp add: head_def b1)
  have sz1: "size_snake s1 = 20" using sz by (simp add: s1_def)
  from ne al have "aligned (hd ?b)" by (cases ?b) simp_all
  then have anh: "aligned nh" unfolding nh_def by (rule aligned_step)
  have al1: "list_all aligned (body s1)"
    using al anh by (auto simp: b1 list_all_iff dest: in_set_butlastD)
  from ne have len1: "length (body s1) = length ?b" by (cases ?b) (simp_all add: b1)
  obtain sh where sc: "is_self_collision s1 = Returns sh"
    by (simp add: is_self_collision_def hd1)
  obtain wh where wc: "is_wall_collision s1 = Returns wh"
    by (cases nh) (simp add: is_wall_collision_def hd1)
  have col: "(if sh then Returns True else is_wall_collision s1) = Returns (sh \<or> wh)"
    by (simp add: wc)
  show ?thesis
  proof (cases "nh = position (food g)")
    case True
    define s2 where "s2 = s1\<lparr>body := body s1 @ [last (body s1)]\<rparr>"
    have gr: "grow s1 = Returns s2" by (simp add: grow_def b1 s2_def)
    from t False True have "\<exists>f. reset_position tape s2 (food g) = Returns (f, tape')
        \<and> snake g' = s2 \<and> food g' = f \<and> score g' = score g + 1"
      by (auto simp: tick_def mv sc col hd1 gr obind_eq_Returns Let_def split: if_splits)
    then obtain f where rp: "reset_position tape s2 (food g) = Returns (f, tape')"
      and g': "snake g' = s2" "food g' = f" "score g' = score g + 1" by blast
    from reset_position_post [OF fsz rp]
    have f: "position f \<notin> set (body s2)" "size_food f = 20" "food_cell (position f)"
      by simp_all
    have al2: "list_all aligned (body s2)"
      using al1 by (simp add: s2_def b1 list_all_iff)
    have len2: "int (length (body s2)) = score g + 1 + 1"
      using len len1 by (simp add: s2_def)
    have "body s2 \<noteq> []" "size_snake s2 = 20" using sz1 by (simp_all add: s2_def)
    with f al2 len2 g' show ?thesis by (simp add: game_inv_def grid_state_def)
  next
    case False
    with t \<open>\<not> game_over g\<close> have g': "snake g' = s1" "food g' = food g" "score g' = score g"
      by (auto simp: tick_def mv sc col hd1 Let_def split: if_splits)
    from False free have "position (food g) \<notin> set (body s1)"
      by (auto simp: b1 dest: in_set_butlastD)
    with g' sz1 fsz fc al1 len len1 show ?thesis
      by (simp add: game_inv_def grid_state_def b1)
  qed
qed

lemma frame_inv:
  assumes "game_inv g" and "frame evs tape g = Returns (g', tape')"
  shows "game_inv g'"
proof -
  from assms(2) obtain g1 tape1
    where e: "handle_events evs tape g = Returns (g1, tape1)"
      and t: "tick tape1 g1 = Returns (g', tape')"
    by (auto simp: frame_def obind_eq_Returns)
  from tick_inv [OF handle_events_inv [OF assms(1) e] t] show ?thesis .
qed

lemma main_loop_inv:
  "game_inv g \<Longrightarrow> main_loop frames tape g = Returns (g', tape') \<Longrightarrow> game_inv g'"
proof (induction frames arbitrary: tape g)
  case Nil
  then show ?case by simp
next
  case (Cons evs frames)
  show ?case
  proof (cases "running g")
    case True
    with Cons.prems(2) obtain g1 tape1
      where f: "frame evs tape g = Returns (g1, tape1)"
        and r: "main_loop frames tape1 g1 = Returns (g', tape')"
      by (auto simp: obind_eq_Returns)
    from Cons.IH [OF frame_inv [OF Cons.prems(1) f] r] show ?thesis .
  next
    case False
    with Cons.prems show ?thesis by simp
  qed
qed

lemma run_inv:
  assumes "run frames tape = Returns (g, tape')"
  shows "game_inv g"
proof -
  from assms obtain g0 tape0
    where i: "main_init tape = Returns (g0, tape0)"
      and l: "main_loop frames tape0 g0 = Returns (g, tape')"
    by (auto simp: run_def obind_eq_Returns)
  from main_loop_inv [OF main_init_inv [OF i] l] show ?thesis .
qed

lemma move_aligned:
  assumes "size_snake s = 20" and "list_all aligned (body s)" and "move s = Returns s'"
  shows "list_all aligned (body s')"
proof (cases "body s")
  case Nil
  with assms(3) show ?thesis by (simp add: move_def head_def)
next
  case (Cons h t)
  then have ne: "body s \<noteq> []" by simp
  from assms(2) Cons have "aligned h" by simp
  then have "aligned (fst h + fst (direction s) * 20, snd h + snd (direction s) * 20)"
    by (rule aligned_step)
  moreover from assms(2) have "list_all aligned (butlast (body s))"
    by (auto simp: list_all_iff dest: in_set_butlastD)
  moreover from move_Returns [OF ne] assms(1,3) Cons
  have "body s' = (fst h + fst (direction s) * 20, snd h + snd (direction s) * 20)
                    # butlast (body s)" by auto
  ultimately show ?thesis by simp
qed

lemma grow_aligned:
  assumes "list_all aligned (body s)" and "grow s = Returns s'"
  shows "list_all aligned (body s')"
proof -
  from assms(2) have ne: "body s \<noteq> []" and "body s' = body s @ [last (body s)]"
    by (auto simp: grow_def split: if_splits)
  with assms(1) show ?thesis by (simp add: list_all_iff)
qed

text \<open>
  The test of the head against the food does not depend on the collision test. On a
  state that the loop never reaches, with the food outside the arena, one step ends the
  game and eats the food as well.
\<close>

lemma tick_food_test_unguarded:
  "tick [3, 3] \<lparr>snake = \<lparr>body = [(0, 0)], direction = (-1, 0), size_snake = 20\<rparr>,
                food = \<lparr>position = (-20, 0), size_food = 20\<rparr>, score = 0, framerate = 5,
                game_over = False, running = True\<rparr>
     = Returns (\<lparr>snake = \<lparr>body = [(-20, 0), (-20, 0)], direction = (-1, 0), size_snake = 20\<rparr>,
                 food = \<lparr>position = (60, 60), size_food = 20\<rparr>, score = 1, framerate = 6,
                 game_over = True, running = True\<rparr>, [])"
  by code_simp

text \<open>
  C2. Take a state that the loop reaches at the end of a frame, the events of the next
  frame, and the simulation step that follows in the Running phase. When the moved snake
  collides with itself or with a wall, the step ends with \<open>game_over\<close> set and nothing
  else changed after the move: the snake is the moved one, of the same length, and food,
  score and frame rate are as before; no random draw is consumed, so the food is not
  placed again.
\<close>

theorem collision_tick_skips_food_update:
  assumes "run frames tape = Returns (g0, tape0)"
      and "handle_events evs tape0 g0 = Returns (g1, tape1)"
      and "\<not> game_over g1"
      and "move (snake g1) = Returns s1"
      and "is_self_collision s1 = Returns True \<or> is_wall_collision s1 = Returns True"
  shows "tick tape1 g1 = Returns (g1\<lparr>snake := s1, game_over := True\<rparr>, tape1)
         \<and> length (body s1) = length (body (snake g1))
         \<and> frame evs tape0 g0 = Returns (g1\<lparr>snake := s1, game_over := True\<rparr>, tape1)"
proof -
  let ?b = "body (snake g1)"
  have inv: "game_inv g1"
    by (rule handle_events_inv [OF run_inv [OF assms(1)] assms(2)])
  then have ne: "?b \<noteq> []" and free: "position (food g1) \<notin> set ?b"
    and fc: "food_cell (position (food g1))"
    by (simp_all add: game_inv_def grid_state_def)
  from move_Returns [OF ne] assms(4) obtain nh where b1: "body s1 = nh # butlast ?b"
    by auto
  have hd1: "head s1 = Returns nh" by (simp add: head_def b1)
  have sc: "is_self_collision s1 = Returns (nh \<in> set (butlast ?b))"
    by (simp add: is_self_collision_def hd1 b1)
  have wc: "is_wall_collision s1
              = Returns (fst nh < 0 \<or> fst nh \<ge> WIDTH \<or> snd nh < 0 \<or> snd nh \<ge> HEIGHT)"
    by (cases nh) (simp add: is_wall_collision_def hd1)
  from assms(5) sc wc
  have hit: "nh \<in> set (butlast ?b) \<or> fst nh < 0 \<or> fst nh \<ge> WIDTH \<or> snd nh < 0 \<or> snd nh \<ge> HEIGHT"
    by auto
  have nofood: "nh \<noteq> position (food g1)"
  proof
    assume "nh = position (food g1)"
    with hit free fc show False
      by (auto simp: food_cell_def WIDTH_def HEIGHT_def dest: in_set_butlastD)
  qed
  from hit wc
  have col: "(if nh \<in> set (butlast ?b) then Returns True else is_wall_collision s1) = Returns True"
    by auto
  from assms(3) nofood
  have t: "tick tape1 g1 = Returns (g1\<lparr>snake := s1, game_over := True\<rparr>, tape1)"
    by (simp add: tick_def assms(4) sc col hd1)
  from ne have len: "length (body s1) = length ?b" by (cases ?b) (simp_all add: b1)
  from t len show ?thesis by (simp add: frame_def assms(2))
qed

theorem collision_tick_skips_food_update_witness:
  "run [[], [], [KEYDOWN K_LEFT], [KEYDOWN K_DOWN]] [20, 14, 20, 13, 19, 13, 19, 14, 20, 14, 0, 0, 9]
     = Returns (\<lparr>snake = \<lparr>body = [(380, 280), (380, 260), (400, 260), (400, 280), (400, 280)],
                           direction = (0, 1), size_snake = 20\<rparr>,
                 food = \<lparr>position = (0, 0), size_food = 20\<rparr>, score = 4, framerate = 9,
                 game_over = False, running = True\<rparr>, [9])
   \<and> is_self_collision \<lparr>body = [(400, 280), (380, 280), (380, 260), (400, 260), (400, 280)],
                         direction = (1, 0), size_snake = 20\<rparr> = Returns True
   \<and> frame [KEYDOWN K_RIGHT] [9]
        \<lparr>snake = \<lparr>body = [(380, 280), (380, 260), (400, 260), (400, 280), (400, 280)],
                   direction = (0, 1), size_snake = 20\<rparr>,
         food = \<lparr>position = (0, 0), size_food = 20\<rparr>, score = 4, framerate = 9,
         game_over = False, running = True\<rparr>
     = Returns (\<lparr>snake = \<lparr>body = [(400, 280), (380, 280), (380, 260), (400, 260), (400, 280)],
                           direction = (1, 0), size_snake = 20\<rparr>,
                 food = \<lparr>position = (0, 0), size_food = 20\<rparr>, score = 4, framerate = 9,
                 game_over = True, running = True\<rparr>, [9])"
proof -
  let ?reached = "\<lparr>snake = \<lparr>body = [(380, 280), (380, 260), (400, 260), (400, 280), (400, 280)],
                        direction = (0, 1), size_snake = 20\<rparr>,
              food = \<lparr>position = (0, 0), size_food = 20\<rparr>, score = 4, framerate = 9,
              game_over = False, running = True\<rparr>"
  let ?turned = "\<lparr>snake = \<lparr>body = [(380, 280), (380, 260), (400, 260), (400, 280), (400, 280)],
                        direction = (1, 0), size_snake = 20\<rparr>,
              food = \<lparr>position = (0, 0), size_food = 20\<rparr>, score = 4, framerate = 9,
              game_over = False, running = True\<rparr>"
  let ?moved = "\<lparr>body = [(400, 280), (380, 280), (380, 260), (400, 260), (400, 280)],
              direction = (1, 0), size_snake = 20\<rparr>"
  have r: "run [[], [], [KEYDOWN K_LEFT], [KEYDOWN K_DOWN]]
             [20, 14, 20, 13, 19, 13, 19, 14, 20, 14, 0, 0, 9] = Returns (?reached, [9])"
    by code_simp
  have e: "handle_events [KEYDOWN K_RIGHT] [9] ?reached = Returns (?turned, [9])"
    by code_simp
  have p: "\<not> game_over ?turned" by simp
  have m: "move (snake ?turned) = Returns ?moved" by code_simp
  have c: "is_self_collision ?moved = Returns True" by code_simp
  then have c': "is_self_collision ?moved = Returns True \<or> is_wall_collision ?moved = Returns True" ..
  from collision_tick_skips_food_update [OF r e p m c'] r c show ?thesis by simp
qed

text \<open>
  C4. In every state that the loop reaches at the end of a frame, and before the first
  frame, whatever the events and the random draws were, the food is not on the snake.
\<close>

theorem food_never_on_snake:
  assumes "run frames tape = Returns (g, tape')"
  shows "position (food g) \<notin> set (body (snake g))"
  using run_inv [OF assms] by (simp add: game_inv_def)

theorem food_never_on_snake_witness:
  "run [[], [KEYDOWN K_LEFT]] [20, 14, 20, 14, 19, 14, 3, 3]
     = Returns (\<lparr>snake = \<lparr>body = [(380, 280), (400, 280), (400, 280)], direction = (-1, 0),
                           size_snake = 20\<rparr>,
                 food = \<lparr>position = (60, 60), size_food = 20\<rparr>, score = 2, framerate = 7,
                 game_over = False, running = True\<rparr>, [])
   \<and> (60, 60) \<notin> set [(380, 280), (400, 280), (400 :: int, 280 :: int)]"
proof -
  have r: "run [[], [KEYDOWN K_LEFT]] [20, 14, 20, 14, 19, 14, 3, 3]
     = Returns (\<lparr>snake = \<lparr>body = [(380, 280), (400, 280), (400, 280)], direction = (-1, 0),
                           size_snake = 20\<rparr>,
                 food = \<lparr>position = (60, 60), size_food = 20\<rparr>, score = 2, framerate = 7,
                 game_over = False, running = True\<rparr>, [])"
    by code_simp
  from food_never_on_snake [OF r] r show ?thesis by simp
qed

text \<open>
  C10. In every state that the loop reaches at the end of a frame, and before the first
  frame, the length of the snake's body is the score plus one.
\<close>

theorem body_length_is_score_plus_one:
  assumes "run frames tape = Returns (g, tape')"
  shows "int (length (body (snake g))) = score g + 1"
  using run_inv [OF assms] by (simp add: game_inv_def)

theorem body_length_is_score_plus_one_witness:
  "run (replicate 16 [] @ [[KEYDOWN K_r, KEYDOWN K_RIGHT]]) [0, 0, 21, 15, 2, 2]
     = Returns (\<lparr>snake = \<lparr>body = [(420, 300), (420, 300)], direction = (1, 0), size_snake = 20\<rparr>,
                 food = \<lparr>position = (40, 40), size_food = 20\<rparr>, score = 1, framerate = 6,
                 game_over = False, running = True\<rparr>, [])
   \<and> int (length [(420 :: int, 300 :: int), (420, 300)]) = 1 + 1"
proof -
  have r: "run (replicate 16 [] @ [[KEYDOWN K_r, KEYDOWN K_RIGHT]]) [0, 0, 21, 15, 2, 2]
     = Returns (\<lparr>snake = \<lparr>body = [(420, 300), (420, 300)], direction = (1, 0), size_snake = 20\<rparr>,
                 food = \<lparr>position = (40, 40), size_food = 20\<rparr>, score = 1, framerate = 6,
                 game_over = False, running = True\<rparr>, [])"
    by code_simp
  from body_length_is_score_plus_one [OF r] r show ?thesis by simp
qed

text \<open>
  C7. The restart key changes nothing while the game is not over. When the game is over
  and the handling of the key returns, the score is 0, the frame rate is the initial 5,
  the game is running again, the snake is the one of \<open>Snake.__init__\<close> (one segment at the
  centre (400, 300) of the arena, heading up) and the food is on a cell that is not in
  its body; the \<open>running\<close> flag of the loop is untouched. The handling returns at the
  first pair of draws that is not the centre cell.
\<close>

theorem restart_only_when_game_over:
  "(\<not> game_over g \<longrightarrow> handle_event (KEYDOWN K_r) tape g = Returns (g, tape))
   \<and> (game_over g \<and> handle_event (KEYDOWN K_r) tape g = Returns (g', tape') \<longrightarrow>
        score g' = 0 \<and> framerate g' = 5 \<and> \<not> game_over g'
        \<and> snake g' = \<lparr>body = [(400, 300)], direction = (0, -1), size_snake = 20\<rparr>
        \<and> position (food g') \<notin> set (body (snake g'))
        \<and> running g' = running g)
   \<and> (game_over g \<and> (int (r1 mod 40) * 20, int (r2 mod 30) * 20) \<noteq> (400, 300) \<longrightarrow>
        (\<exists>g'. handle_event (KEYDOWN K_r) (r1 # r2 # rest) g = Returns (g', rest)))"
proof -
  have sz: "size_food Food_init = 20" by (simp add: Food_init_def)
  have ignored: "\<not> game_over g \<longrightarrow> handle_event (KEYDOWN K_r) tape g = Returns (g, tape)"
    by simp
  have fresh: "game_over g \<and> handle_event (KEYDOWN K_r) tape g = Returns (g', tape') \<longrightarrow>
        score g' = 0 \<and> framerate g' = 5 \<and> \<not> game_over g'
        \<and> snake g' = \<lparr>body = [(400, 300)], direction = (0, -1), size_snake = 20\<rparr>
        \<and> position (food g') \<notin> set (body (snake g'))
        \<and> running g' = running g"
  proof
    assume "game_over g \<and> handle_event (KEYDOWN K_r) tape g = Returns (g', tape')"
    then obtain f where rp: "reset_position tape Snake_init Food_init = Returns (f, tape')"
      and g': "g' = g\<lparr>snake := Snake_init, food := f, score := 0,
                       framerate := INITIAL_FRAMERATE, game_over := False\<rparr>"
      using restart_Returns by blast
    from reset_position_post [OF sz rp] have "position f \<notin> set (body Snake_init)" by simp
    then show "score g' = 0 \<and> framerate g' = 5 \<and> \<not> game_over g'
          \<and> snake g' = \<lparr>body = [(400, 300)], direction = (0, -1), size_snake = 20\<rparr>
          \<and> position (food g') \<notin> set (body (snake g'))
          \<and> running g' = running g"
      by (simp add: g' Snake_init_def INITIAL_FRAMERATE_def WIDTH_def HEIGHT_def)
  qed
  have returns: "game_over g \<and> (int (r1 mod 40) * 20, int (r2 mod 30) * 20) \<noteq> (400, 300) \<longrightarrow>
        (\<exists>g'. handle_event (KEYDOWN K_r) (r1 # r2 # rest) g = Returns (g', rest))"
  proof
    assume a: "game_over g \<and> (int (r1 mod 40) * 20, int (r2 mod 30) * 20) \<noteq> (400, 300)"
    from reset_position_size20 [OF sz, of "r1 # r2 # rest" Snake_init] a
    have "reset_position (r1 # r2 # rest) Snake_init Food_init
            = Returns (Food_init\<lparr>position := (int (r1 mod 40) * 20, int (r2 mod 30) * 20)\<rparr>, rest)"
      by (simp add: Snake_init_def WIDTH_def HEIGHT_def)
    with a show "\<exists>g'. handle_event (KEYDOWN K_r) (r1 # r2 # rest) g = Returns (g', rest)"
      by simp
  qed
  from ignored fresh returns show ?thesis by (intro conjI)
qed

theorem restart_only_when_game_over_witness:
  "handle_event (KEYDOWN K_r) [20, 15, 7, 8, 3]
     \<lparr>snake = \<lparr>body = [(400, -20), (400, 0), (400, 20), (400, 40)], direction = (0, -1),
                size_snake = 20\<rparr>,
      food = \<lparr>position = (100, 100), size_food = 20\<rparr>, score = 3, framerate = 8,
      game_over = True, running = True\<rparr>
     = Returns (\<lparr>snake = \<lparr>body = [(400, 300)], direction = (0, -1), size_snake = 20\<rparr>,
                 food = \<lparr>position = (140, 160), size_food = 20\<rparr>, score = 0, framerate = 5,
                 game_over = False, running = True\<rparr>, [3])
   \<and> handle_event (KEYDOWN K_r) [20, 15, 7, 8, 3]
       \<lparr>snake = \<lparr>body = [(400, 280)], direction = (0, -1), size_snake = 20\<rparr>,
        food = \<lparr>position = (100, 100), size_food = 20\<rparr>, score = 0, framerate = 5,
        game_over = False, running = True\<rparr>
     = Returns (\<lparr>snake = \<lparr>body = [(400, 280)], direction = (0, -1), size_snake = 20\<rparr>,
                 food = \<lparr>position = (100, 100), size_food = 20\<rparr>, score = 0, framerate = 5,
                 game_over = False, running = True\<rparr>, [20, 15, 7, 8, 3])"
proof -
  let ?over = "\<lparr>snake = \<lparr>body = [(400, -20), (400, 0), (400, 20), (400, 40)],
                          direction = (0, -1), size_snake = 20\<rparr>,
                food = \<lparr>position = (100, 100), size_food = 20\<rparr>, score = 3, framerate = 8,
                game_over = True, running = True\<rparr>"
  let ?fresh = "\<lparr>snake = \<lparr>body = [(400, 300)], direction = (0, -1), size_snake = 20\<rparr>,
                 food = \<lparr>position = (140, 160), size_food = 20\<rparr>, score = 0, framerate = 5,
                 game_over = False, running = True\<rparr>"
  let ?going = "\<lparr>snake = \<lparr>body = [(400, 280)], direction = (0, -1), size_snake = 20\<rparr>,
                 food = \<lparr>position = (100, 100), size_food = 20\<rparr>, score = 0, framerate = 5,
                 game_over = False, running = True\<rparr>"
  have h: "handle_event (KEYDOWN K_r) [20, 15, 7, 8, 3] ?over = Returns (?fresh, [3])"
    by code_simp
  have o: "game_over ?over" by simp
  have n: "\<not> game_over ?going" by simp
  from restart_only_when_game_over [of ?over "[20, 15, 7, 8, 3]" ?fresh "[3]"] o h
  have "score ?fresh = 0 \<and> framerate ?fresh = 5 \<and> \<not> game_over ?fresh" by blast
  moreover from restart_only_when_game_over [of ?going "[20, 15, 7, 8, 3]"] n
  have "handle_event (KEYDOWN K_r) [20, 15, 7, 8, 3] ?going = Returns (?going, [20, 15, 7, 8, 3])"
    by blast
  ultimately show ?thesis using h by simp
qed

text \<open>
  C9. In every state that the loop reaches at the end of a frame, and before the first
  frame, every coordinate of every body segment is a multiple of 20 and the food is on a
  multiple of 20 with x in [0, 780] and y in [0, 580]. The operations keep it so: \<open>move\<close>
  (with the segment size 20) and \<open>grow\<close> keep the body aligned, \<open>reset_position\<close> (with
  the food size 20) leaves the food on such a cell, and the restart key keeps both.
\<close>

theorem grid_alignment_invariant:
  "(run frames tape = Returns (g, tape') \<longrightarrow>
      (\<forall>p \<in> set (body (snake g)). 20 dvd fst p \<and> 20 dvd snd p)
      \<and> 20 dvd fst (position (food g)) \<and> 0 \<le> fst (position (food g))
      \<and> fst (position (food g)) \<le> 780
      \<and> 20 dvd snd (position (food g)) \<and> 0 \<le> snd (position (food g))
      \<and> snd (position (food g)) \<le> 580)
   \<and> (size_snake s = 20 \<and> list_all aligned (body s) \<and> move s = Returns s' \<longrightarrow>
        list_all aligned (body s'))
   \<and> (list_all aligned (body s) \<and> grow s = Returns s'' \<longrightarrow> list_all aligned (body s''))
   \<and> (size_food f = 20 \<and> reset_position tape0 sn f = Returns (f', tape1) \<longrightarrow>
        food_cell (position f'))
   \<and> (grid_state g0 \<and> handle_event (KEYDOWN K_r) tape2 g0 = Returns (g1, tape3) \<longrightarrow>
        grid_state g1)"
proof (intro conjI impI)
  assume "run frames tape = Returns (g, tape')"
  from run_inv [OF this] have gs: "grid_state g" by (simp add: game_inv_def)
  then show "\<forall>p \<in> set (body (snake g)). 20 dvd fst p \<and> 20 dvd snd p"
    by (simp add: grid_state_def list_all_iff aligned_def)
  from gs show "20 dvd fst (position (food g))" "0 \<le> fst (position (food g))"
    "fst (position (food g)) \<le> 780" "20 dvd snd (position (food g))"
    "0 \<le> snd (position (food g))" "snd (position (food g)) \<le> 580"
    by (simp_all add: grid_state_def food_cell_def aligned_def)
next
  assume "size_snake s = 20 \<and> list_all aligned (body s) \<and> move s = Returns s'"
  then show "list_all aligned (body s')" using move_aligned by blast
next
  assume "list_all aligned (body s) \<and> grow s = Returns s''"
  then show "list_all aligned (body s'')" using grow_aligned by blast
next
  assume "size_food f = 20 \<and> reset_position tape0 sn f = Returns (f', tape1)"
  then show "food_cell (position f')" using reset_position_post by blast
next
  assume a: "grid_state g0 \<and> handle_event (KEYDOWN K_r) tape2 g0 = Returns (g1, tape3)"
  show "grid_state g1"
  proof (cases "game_over g0")
    case True
    with a restart_Returns obtain f0
      where "reset_position tape2 Snake_init Food_init = Returns (f0, tape3)"
        and "g1 = g0\<lparr>snake := Snake_init, food := f0, score := 0,
                      framerate := INITIAL_FRAMERATE, game_over := False\<rparr>"
      by blast
    with game_inv_restart show ?thesis by (simp add: game_inv_def)
  next
    case False
    with a show ?thesis by auto
  qed
qed

theorem grid_alignment_invariant_witness:
  "run [[KEYDOWN K_RIGHT]] [1, 2]
     = Returns (\<lparr>snake = \<lparr>body = [(420, 300)], direction = (1, 0), size_snake = 20\<rparr>,
                 food = \<lparr>position = (20, 40), size_food = 20\<rparr>, score = 0, framerate = 5,
                 game_over = False, running = True\<rparr>, [])
   \<and> move \<lparr>body = [(0, 0), (0, 20)], direction = (-1, 0), size_snake = 20\<rparr>
       = Returns \<lparr>body = [(-20, 0), (0, 0)], direction = (-1, 0), size_snake = 20\<rparr>
   \<and> list_all aligned [(-20, 0), (0, 0)]
   \<and> grow \<lparr>body = [(0, 0), (0, 20)], direction = (-1, 0), size_snake = 20\<rparr>
       = Returns \<lparr>body = [(0, 0), (0, 20), (0, 20)], direction = (-1, 0), size_snake = 20\<rparr>
   \<and> list_all aligned [(0, 0), (0, 20), (0, 20)]
   \<and> reset_position [39, 0] \<lparr>body = [(0, 0), (0, 20)], direction = (-1, 0), size_snake = 20\<rparr>
        Food_init = Returns (\<lparr>position = (780, 0), size_food = 20\<rparr>, [])
   \<and> food_cell (780, 0)
   \<and> handle_event (KEYDOWN K_r) [5, 6]
        \<lparr>snake = \<lparr>body = [(-20, 0), (0, 0)], direction = (-1, 0), size_snake = 20\<rparr>,
         food = \<lparr>position = (780, 0), size_food = 20\<rparr>, score = 1, framerate = 6,
         game_over = True, running = True\<rparr>
       = Returns (\<lparr>snake = \<lparr>body = [(400, 300)], direction = (0, -1), size_snake = 20\<rparr>,
                   food = \<lparr>position = (100, 120), size_food = 20\<rparr>, score = 0, framerate = 5,
                   game_over = False, running = True\<rparr>, [])
   \<and> list_all aligned [(400, 300)] \<and> food_cell (100, 120)"
proof -
  let ?reached = "\<lparr>snake = \<lparr>body = [(420, 300)], direction = (1, 0), size_snake = 20\<rparr>,
             food = \<lparr>position = (20, 40), size_food = 20\<rparr>, score = 0, framerate = 5,
             game_over = False, running = True\<rparr>"
  let ?s = "\<lparr>body = [(0, 0), (0, 20)], direction = (-1, 0), size_snake = (20::int)\<rparr>"
  let ?s' = "\<lparr>body = [(-20, 0), (0, 0)], direction = (-1, 0), size_snake = (20::int)\<rparr>"
  let ?s'' = "\<lparr>body = [(0, 0), (0, 20), (0, 20)], direction = (-1, 0), size_snake = (20::int)\<rparr>"
  let ?f' = "\<lparr>position = (780, 0), size_food = (20::int)\<rparr>"
  let ?over = "\<lparr>snake = ?s', food = ?f', score = 1, framerate = 6, game_over = True,
              running = True\<rparr>"
  let ?fresh = "\<lparr>snake = \<lparr>body = [(400, 300)], direction = (0, -1), size_snake = 20\<rparr>,
              food = \<lparr>position = (100, 120), size_food = 20\<rparr>, score = 0, framerate = 5,
              game_over = False, running = True\<rparr>"
  have r: "run [[KEYDOWN K_RIGHT]] [1, 2] = Returns (?reached, [])" by code_simp
  have m: "size_snake ?s = 20 \<and> list_all aligned (body ?s) \<and> move ?s = Returns ?s'"
    by code_simp
  have gr: "list_all aligned (body ?s) \<and> grow ?s = Returns ?s''" by code_simp
  have rp: "size_food Food_init = 20 \<and> reset_position [39, 0] ?s Food_init = Returns (?f', [])"
    by code_simp
  have re: "grid_state ?over \<and> handle_event (KEYDOWN K_r) [5, 6] ?over = Returns (?fresh, [])"
    by code_simp
  note w = grid_alignment_invariant [where frames = "[[KEYDOWN K_RIGHT]]" and tape = "[1, 2]"
      and g = ?reached and tape' = "[]" and s = ?s and s' = ?s' and s'' = ?s'' and f = Food_init
      and tape0 = "[39, 0]" and sn = ?s and f' = ?f' and ?tape1.0 = "[]"
      and ?g0.0 = ?over and ?tape2.0 = "[5, 6]" and ?g1.0 = ?fresh and ?tape3.0 = "[]"]
  from w r have "\<forall>p \<in> set (body (snake ?reached)). 20 dvd fst p \<and> 20 dvd snd p" by blast
  moreover from w m have "list_all aligned (body ?s')" by blast
  moreover from w gr have "list_all aligned (body ?s'')" by blast
  moreover from w rp have "food_cell (position ?f')" by blast
  moreover from w re have "grid_state ?fresh" by blast
  ultimately show ?thesis using r m gr rp re by (simp add: grid_state_def)
qed

end
